theory Spec2Isabelle
  imports Main "HOL-Library.Sublist"
begin

section \<open>The search and load engine of confinode\<close>

text \<open>
  A shallow embedding of the class \<open>Confinode\<close>: the generator methods
  \<open>searchConfig\<close>, \<open>searchConfigInFolder\<close>, \<open>searchConfigUsingDescriptions\<close>,
  \<open>searchFileAndLoader\<close>, \<open>loadConfig\<close>, \<open>loadConfigFile\<close>, and \<open>clearCache\<close>
  and \<open>log\<close>.

  The mutable part of an instance (the two caches), what it sends out (the messages handed
  to the logger, the requests it yields) and the allocation of result objects are the
  fields of one state record, passed through every method and returned updated.  An
  exception is a value: a method that can throw returns, next to the state reached,
  \<open>Inl\<close> of the thrown error or \<open>Inr\<close> of its result.
\<close>

subsection \<open>Data\<close>

datatype level = Trace | Information | Warning | Error

text \<open>A message as the logger receives it: level, message identifier, parameters.\<close>

datatype message = Message level string "string list"

text \<open>
  What can be thrown: a \<open>ConfinodeError\<close> (message identifier and its parameter); any
  other value of which \<open>log\<close> can take the text (the \<open>message\<close> of an \<open>Error\<close>, or
  what \<open>toString()\<close> gives); or \<open>undefined\<close> or \<open>null\<close>, as a loader that says
  \<open>throw undefined\<close> or rejects its promise without a reason throws, on which
  \<open>toString()\<close> cannot be called.
\<close>

datatype error = ConfinodeError string string | Exception string | Undefined

text \<open>The requests a method yields to its driver; \<open>'l\<close> is the type of loaders.\<close>

datatype 'l request =
    RequestIsFolder string
  | RequestFileExits string
  | RequestFolderContent string
  | RequestLoadConfigFile string 'l

text \<open>
  A file description is either a base name (a string) or a file name with its loader;
  \<open>isFileBasename\<close> tells them apart, and the test on it in \<open>searchFileAndLoader\<close> is
  the distinction of the two constructors.
\<close>

datatype 'l fileDescription = FileBasename string | FileWithLoader string 'l

fun isFileBasename :: "'l fileDescription \<Rightarrow> bool" where
  "isFileBasename (FileBasename d) = True"
| "isFileBasename (FileWithLoader n l) = False"

text \<open>A loader with its optional name: \<open>{ name?: string; loader: Loader }\<close>.\<close>

record 'l namedLoader =
  name :: "string option"
  loader :: 'l

text \<open>What \<open>searchFileAndLoader\<close> returns when it finds a file.\<close>

record 'l fileAndLoader =
  foundFileName :: string
  foundLoaderName :: "string option"
  foundLoader :: 'l

text \<open>The context handed to \<open>description.parse\<close>.\<close>

record parserContext =
  keyName :: string
  contextFileName :: string
  final :: bool

text \<open>
  A \<open>ConfinodeResult\<close> built by \<open>new ConfinodeResult(result, { fileName, extends: [] })\<close>:
  the parsed value it wraps and the file it comes from.  Every \<open>new\<close> yields a distinct
  object; \<open>ref\<close> is the identity of the object, so that two results are the same object
  exactly when they are equal as records.
\<close>

record 'p confinodeResult =
  ref :: nat
  parsed :: 'p
  fileName :: string
  extends :: "string list"

text \<open>The fields of \<open>ConfinodeParameters\<close> the engine reads.\<close>

record 'l parameters =
  cache :: bool
  searchStop :: string
  modulePaths :: "string list"
  files :: "'l fileDescription list"

text \<open>
  The state of an instance and of its surroundings: \<open>folderCache\<close>, \<open>contentCache\<close> (a key
  may be present with the value \<open>undefined\<close>, here \<open>Some None\<close>), the messages given to the
  logger so far, the requests yielded so far, and the number of result objects allocated.
\<close>

record ('l, 'p) state =
  folderCache :: "string \<rightharpoonup> string list"
  contentCache :: "string \<rightharpoonup> 'p confinodeResult option"
  logged :: "message list"
  issued :: "'l request list"
  allocated :: nat

text \<open>
  Everything the class uses and this file does not hold is a parameter, the fields of
  \<open>env\<close>:
  \<^item> the functions of Node's \<open>path\<close> module, \<open>process.cwd()\<close> and \<open>require.resolve\<close>
    (\<open>None\<close> when it throws);
  \<^item> \<open>loaderManager.getLoaderFor\<close> (its third argument is optional) and
    \<open>description.parse\<close>, which returns a result, \<open>undefined\<close>, or throws;
  \<^item> the answer of the driver to each kind of request: the value the \<open>yield\<close> evaluates to,
    or the exception thrown at the \<open>yield\<close> (by its comment \<open>loadConfigFile\<close> may throw an error on a
    loading problem, and its only throwing statement besides \<open>noLoaderFound\<close> and
    \<open>description.parse\<close> is the \<open>yield\<close>).  The two drivers, \<open>syncExecute\<close> and
    \<open>asyncExecute\<close>, are not in the sources; they differ in how a request is performed,
    not in what the method sees.
  The logger itself is taken not to throw, and neither are the functions of \<open>path\<close>.
\<close>

record ('l, 'c, 'p) env =
  cwd :: string
  resolve :: "string \<Rightarrow> string \<Rightarrow> string"
  dirname :: "string \<Rightarrow> string"
  basename :: "string \<Rightarrow> string"
  join :: "string \<Rightarrow> string \<Rightarrow> string"
  requireResolve :: "string \<Rightarrow> string \<Rightarrow> string option"
  getLoaderFor :: "string list \<Rightarrow> string \<Rightarrow> string option \<Rightarrow> 'l namedLoader option"
  parse :: "'c \<Rightarrow> parserContext \<Rightarrow> error + 'p option"
  isFolder :: "string \<Rightarrow> error + bool"
  fileExits :: "string \<Rightarrow> error + bool"
  folderContent :: "string \<Rightarrow> error + string list"
  loadFile :: "string \<Rightarrow> 'l \<Rightarrow> error + 'c option"

subsection \<open>Logging, requests, the cache\<close>

text \<open>\<open>log(level, messageId, ...parameters)\<close>: the message goes to the logger.\<close>

definition log :: "message \<Rightarrow> ('l, 'p) state \<Rightarrow> ('l, 'p) state" where
  "log m s = s\<lparr>logged := logged s @ [m]\<rparr>"

text \<open>
  Modelled from the spec: the class \<open>ConfinodeError\<close> is not in the sources; its
  \<open>internalMessage\<close> is taken to be the error's message identifier and parameter at
  error severity (loading errors are logged at error severity).  The other equations are
  the rest of \<open>log(errorType, exception)\<close>, as written in the class: the message of an
  \<open>Error\<close> or the \<open>toString()\<close> of another value, which on \<open>undefined\<close> and \<open>null\<close>
  throws a \<open>TypeError\<close> before any message is built.
\<close>

fun errorMessage :: "string \<Rightarrow> error \<Rightarrow> error + message" where
  "errorMessage errorType (ConfinodeError messageId parameter) =
     Inr (Message Error messageId [parameter])"
| "errorMessage errorType (Exception text) =
     (if errorType = ''loading'' then Inr (Message Error ''loadingError'' [text])
      else Inr (Message Error ''internalError'' [text]))"
| "errorMessage errorType Undefined =
     Inl (Exception ''Cannot read properties of undefined (reading toString)'')"

text \<open>
  \<open>log(errorType, exception)\<close>: the message goes to the logger, unless building it
  throws.
\<close>

definition logException ::
  "string \<Rightarrow> error \<Rightarrow> ('l, 'p) state \<Rightarrow> error + ('l, 'p) state" where
  "logException errorType exception s =
     (case errorMessage errorType exception of
        Inl thrown \<Rightarrow> Inl thrown
      | Inr m \<Rightarrow> Inr (log m s))"

text \<open>A \<open>yield\<close> of a request: the request is handed to the driver.\<close>

definition yieldRequest :: "'l request \<Rightarrow> ('l, 'p) state \<Rightarrow> ('l, 'p) state" where
  "yieldRequest r s = s\<lparr>issued := issued s @ [r]\<rparr>"

text \<open>\<open>if (this.parameters.cache) { this.contentCache[key] = result }\<close>\<close>

definition cacheContent ::
  "'l parameters \<Rightarrow> string \<Rightarrow> 'p confinodeResult option \<Rightarrow> ('l, 'p) state \<Rightarrow> ('l, 'p) state" where
  "cacheContent p key result s =
     (if cache p then s\<lparr>contentCache := (contentCache s)(key \<mapsto> result)\<rparr> else s)"

definition clearCache :: "('l, 'p) state \<Rightarrow> ('l, 'p) state" where
  "clearCache s = s\<lparr>folderCache := Map.empty, contentCache := Map.empty\<rparr>"

subsection \<open>Loading a file\<close>

definition loadConfigFile ::
  "('l, 'c, 'p) env \<Rightarrow> 'l parameters \<Rightarrow> ('l, 'p) state \<Rightarrow> string \<Rightarrow> 'l namedLoader option
     \<Rightarrow> ('l, 'p) state \<times> (error + 'p confinodeResult option)" where
  "loadConfigFile e p s fName givenLoader =
     (let absoluteFile = resolve e (cwd e) fName;
          s1 = log (Message Trace ''loadingFile'' [absoluteFile]) s
      in case contentCache s1 absoluteFile of
           Some cached \<Rightarrow> (log (Message Trace ''loadedFromCache'' []) s1, Inr cached)
         | None \<Rightarrow>
            (case (case givenLoader of
                     Some l \<Rightarrow> Some l
                   | None \<Rightarrow> getLoaderFor e (modulePaths p) (basename e absoluteFile) None) of
               None \<Rightarrow> (s1, Inl (ConfinodeError ''noLoaderFound'' absoluteFile))
             | Some usedLoader \<Rightarrow>
                (let s2 = (case name usedLoader of
                             None \<Rightarrow> s1
                           | Some n \<Rightarrow>
                               if n \<noteq> [] then log (Message Trace ''usingLoader'' [n]) s1 else s1);
                     s3 = yieldRequest (RequestLoadConfigFile absoluteFile (loader usedLoader)) s2
                 in case loadFile e absoluteFile (loader usedLoader) of
                      Inl x \<Rightarrow> (s3, Inl x)
                    | Inr None \<Rightarrow>
                        (cacheContent p absoluteFile None
                           (log (Message Trace ''emptyConfiguration'' []) s3), Inr None)
                    | Inr (Some content) \<Rightarrow>
                       (case parse e content
                               \<lparr>keyName = [], contextFileName = fName, final = True\<rparr> of
                          Inl x \<Rightarrow> (s3, Inl x)
                        | Inr None \<Rightarrow> (cacheContent p absoluteFile None s3, Inr None)
                        | Inr (Some r) \<Rightarrow>
                           (let result = \<lparr>ref = allocated s3, parsed = r,
                                           fileName = fName, extends = []\<rparr>
                            in (cacheContent p absoluteFile (Some result)
                                  (s3\<lparr>allocated := Suc (allocated s3)\<rparr>),
                                Inr (Some result)))))))"

subsection \<open>Matching one description in one folder\<close>

text \<open>
  The candidates of a base name among the entries of a folder: the entries that start
  with \<open>baseName\<close> and for which a loader is found, in the order of the listing.
\<close>

definition loadersOf ::
  "('l, 'c, 'p) env \<Rightarrow> 'l parameters \<Rightarrow> string \<Rightarrow> string \<Rightarrow> string list \<Rightarrow> 'l fileAndLoader list" where
  "loadersOf e p folderName baseName fileNames =
     List.map_filter
       (\<lambda>fName.
          case getLoaderFor e (modulePaths p) fName (Some (drop (length baseName) fName)) of
            Some l \<Rightarrow> Some \<lparr>foundFileName = join e folderName fName,
                            foundLoaderName = name l, foundLoader = loader l\<rparr>
          | None \<Rightarrow> None)
       (filter (\<lambda>fName. prefix baseName fName) fileNames)"

fun searchFileAndLoader ::
  "('l, 'c, 'p) env \<Rightarrow> 'l parameters \<Rightarrow> ('l, 'p) state \<Rightarrow> string \<Rightarrow> 'l fileDescription
     \<Rightarrow> ('l, 'p) state \<times> (error + 'l fileAndLoader option)" where
  "searchFileAndLoader e p s folder (FileBasename description) =
     (let searchedPath = join e folder description;
          folderName = dirname e searchedPath;
          baseName = basename e description @ ''.''
      in case (case folderCache s folderName of
                 Some fileNames \<Rightarrow> (s, Inr fileNames)
               | None \<Rightarrow>
                  (let s1 = yieldRequest (RequestFolderContent folderName) s
                   in case folderContent e folderName of
                        Inl x \<Rightarrow> (s1, Inl x)
                      | Inr fileNames \<Rightarrow>
                          (if cache p
                           then s1\<lparr>folderCache := (folderCache s1)(folderName \<mapsto> fileNames)\<rparr>
                           else s1, Inr fileNames))) of
            (s2, Inl x) \<Rightarrow> (s2, Inl x)
          | (s2, Inr fileNames) \<Rightarrow>
             (let loaders = loadersOf e p folderName baseName fileNames
              in case loaders of
                   [] \<Rightarrow> (s2, Inr None)
                 | first # others \<Rightarrow>
                     (if others \<noteq> []
                      then log (Message Warning ''multipleFiles'' [searchedPath]) s2
                      else s2, Inr (Some first))))"
| "searchFileAndLoader e p s folder (FileWithLoader fName l) =
     (let fullName = join e folder fName;
          s1 = yieldRequest (RequestFileExits fullName) s
      in case fileExits e fullName of
           Inl x \<Rightarrow> (s1, Inl x)
         | Inr True \<Rightarrow>
             (s1, Inr (Some \<lparr>foundFileName = fullName, foundLoaderName = None, foundLoader = l\<rparr>))
         | Inr False \<Rightarrow> (s1, Inr None))"

subsection \<open>The descriptions of one folder, in order\<close>

text \<open>
  The \<open>for\<close> loop of \<open>searchConfigUsingDescriptions\<close> over the descriptions that remain.
\<close>

fun searchDescriptions ::
  "('l, 'c, 'p) env \<Rightarrow> 'l parameters \<Rightarrow> ('l, 'p) state \<Rightarrow> string \<Rightarrow> 'l fileDescription list
     \<Rightarrow> ('l, 'p) state \<times> (error + 'p confinodeResult option)" where
  "searchDescriptions e p s folder [] = (s, Inr None)"
| "searchDescriptions e p s folder (fileDescription # remaining) =
     (case searchFileAndLoader e p s folder fileDescription of
        (s1, Inl x) \<Rightarrow> (s1, Inl x)
      | (s1, Inr None) \<Rightarrow> searchDescriptions e p s1 folder remaining
      | (s1, Inr (Some found)) \<Rightarrow>
         (case loadConfigFile e p s1 (foundFileName found)
                 (Some \<lparr>name = foundLoaderName found, loader = foundLoader found\<rparr>) of
            (s2, Inl x) \<Rightarrow> (s2, Inl x)
          | (s2, Inr None) \<Rightarrow> searchDescriptions e p s2 folder remaining
          | (s2, Inr (Some result)) \<Rightarrow>
              (log (Message Information ''loadedConfiguration'' [foundFileName found]) s2,
               Inr (Some result))))"

definition searchConfigUsingDescriptions ::
  "('l, 'c, 'p) env \<Rightarrow> 'l parameters \<Rightarrow> ('l, 'p) state \<Rightarrow> string
     \<Rightarrow> ('l, 'p) state \<times> (error + 'p confinodeResult option)" where
  "searchConfigUsingDescriptions e p s folder = searchDescriptions e p s folder (files p)"

subsection \<open>The cascade\<close>

text \<open>
  The \<open>catch\<close> block of \<open>searchConfigInFolder\<close> and what follows it: the exception is
  logged, the result (still \<open>undefined\<close>) is cached under the folder and returned.  When
  \<open>log\<close> throws, the method is left at once.
\<close>

definition catchLoading ::
  "'l parameters \<Rightarrow> string \<Rightarrow> error \<Rightarrow> ('l, 'p) state
     \<Rightarrow> ('l, 'p) state \<times> (error + 'p confinodeResult option)" where
  "catchLoading p absoluteFolder x s =
     (case logException ''loading'' x s of
        Inl thrown \<Rightarrow> (s, Inl thrown)
      | Inr s' \<Rightarrow> (cacheContent p absoluteFolder None s', Inr None))"

text \<open>
  \<open>searchConfigInFolder\<close> calls itself on the parent folder.  Nothing in the method bounds
  the depth of the recursion (that depends on \<open>dirname\<close>), so the model takes the number
  of nested calls allowed as its first argument and returns \<open>None\<close> when that does not
  suffice.  The call on the parent stands in the \<open>try\<close> block, so what it throws is caught
  like what \<open>searchConfigUsingDescriptions\<close> throws.
\<close>

fun searchConfigInFolder ::
  "nat \<Rightarrow> ('l, 'c, 'p) env \<Rightarrow> 'l parameters \<Rightarrow> ('l, 'p) state \<Rightarrow> string
     \<Rightarrow> (('l, 'p) state \<times> (error + 'p confinodeResult option)) option" where
  "searchConfigInFolder 0 e p s folder = None"
| "searchConfigInFolder (Suc n) e p s folder =
     (let absoluteFolder = resolve e (cwd e) folder;
          s1 = log (Message Trace ''searchInFolder'' [absoluteFolder]) s
      in case contentCache s1 absoluteFolder of
           Some cached \<Rightarrow> Some (log (Message Trace ''loadedFromCache'' []) s1, Inr cached)
         | None \<Rightarrow>
            (case searchConfigUsingDescriptions e p s1 absoluteFolder of
               (s2, Inl x) \<Rightarrow> Some (catchLoading p absoluteFolder x s2)
             | (s2, Inr result) \<Rightarrow>
                 (if result = None \<and> absoluteFolder \<noteq> searchStop p
                  then (let parentFolder = dirname e absoluteFolder
                        in if parentFolder \<noteq> absoluteFolder
                           then (case searchConfigInFolder n e p s2 parentFolder of
                                   None \<Rightarrow> None
                                 | Some (s3, Inl x) \<Rightarrow> Some (catchLoading p absoluteFolder x s3)
                                 | Some (s3, Inr found) \<Rightarrow>
                                     Some (cacheContent p absoluteFolder found s3, Inr found))
                           else Some (cacheContent p absoluteFolder result s2, Inr result))
                  else Some (cacheContent p absoluteFolder result s2, Inr result))))"

text \<open>
  The \<open>catch\<close> block of \<open>searchConfig\<close>: the exception is logged as internal and
  \<open>undefined\<close> is returned, unless \<open>log\<close> throws.
\<close>

definition catchInternal ::
  "error \<Rightarrow> ('l, 'p) state \<Rightarrow> ('l, 'p) state \<times> (error + 'p confinodeResult option)" where
  "catchInternal x s =
     (case logException ''internal'' x s of
        Inl thrown \<Rightarrow> (s, Inl thrown)
      | Inr s' \<Rightarrow> (s', Inr None))"

text \<open>
  \<open>searchConfig\<close>: \<open>searchStart\<close> is optional and defaults to \<open>process.cwd()\<close>.  What
  the first \<open>yield\<close> or \<open>searchConfigInFolder\<close> throws is caught.  \<open>Inl\<close> in the result
  is an exception that reaches the caller.
\<close>

definition searchConfig ::
  "nat \<Rightarrow> ('l, 'c, 'p) env \<Rightarrow> 'l parameters \<Rightarrow> ('l, 'p) state \<Rightarrow> string option
     \<Rightarrow> (('l, 'p) state \<times> (error + 'p confinodeResult option)) option" where
  "searchConfig n e p s searchStart =
     (let start = (case searchStart of None \<Rightarrow> cwd e | Some given \<Rightarrow> given);
          s1 = yieldRequest (RequestIsFolder start) s
      in case isFolder e start of
           Inl x \<Rightarrow> Some (catchInternal x s1)
         | Inr isDir \<Rightarrow>
            (case searchConfigInFolder n e p s1 (if isDir then start else dirname e start) of
               None \<Rightarrow> None
             | Some (s2, Inl x) \<Rightarrow> Some (catchInternal x s2)
             | Some (s2, Inr result) \<Rightarrow> Some (s2, Inr result)))"

subsection \<open>Loading by name\<close>

text \<open>
  The \<open>catch\<close> block of \<open>loadConfig\<close> and the \<open>return undefined\<close> after it.
\<close>

definition catchLoad ::
  "error \<Rightarrow> ('l, 'p) state \<Rightarrow> ('l, 'p) state \<times> (error + 'p confinodeResult option)" where
  "catchLoad x s =
     (case logException ''loading'' x s of
        Inl thrown \<Rightarrow> (s, Inl thrown)
      | Inr s' \<Rightarrow> (s', Inr None))"

text \<open>
  \<open>loadConfig\<close>: \<open>folder\<close> is optional and defaults to \<open>process.cwd()\<close>.  \<open>Inl\<close> in the
  result is an exception that reaches the caller.
\<close>

definition loadConfig ::
  "('l, 'c, 'p) env \<Rightarrow> 'l parameters \<Rightarrow> ('l, 'p) state \<Rightarrow> string \<Rightarrow> string option
     \<Rightarrow> ('l, 'p) state \<times> (error + 'p confinodeResult option)" where
  "loadConfig e p s nm folder =
     (let from = (case folder of None \<Rightarrow> cwd e | Some given \<Rightarrow> given);
          notFound = ConfinodeError ''fileNotFound'' nm
      in case requireResolve e nm from of
           None \<Rightarrow> catchLoad notFound s
         | Some fName \<Rightarrow>
            (if fName = [] then catchLoad notFound s
             else (let s1 = yieldRequest (RequestFileExits fName) s
                   in case fileExits e fName of
                        Inl x \<Rightarrow> catchLoad x s1
                      | Inr False \<Rightarrow> catchLoad notFound s1
                      | Inr True \<Rightarrow>
                         (case loadConfigFile e p s1 fName None of
                            (s2, Inl x) \<Rightarrow> catchLoad x s2
                          | (s2, Inr result) \<Rightarrow> (s2, Inr result)))))"

subsection \<open>What a run leaves behind\<close>

text \<open>
  The folders the cascade went through: every call of \<open>searchConfigInFolder\<close> starts by
  logging \<open>searchInFolder\<close> with the absolute folder.
\<close>

fun visitedFolders :: "message list \<Rightarrow> string list" where
  "visitedFolders [] = []"
| "visitedFolders (Message lv messageId ps # ms) =
     (if lv = Trace \<and> messageId = ''searchInFolder'' then ps @ visitedFolders ms
      else visitedFolders ms)"

text \<open>The messages at error severity: what \<open>log(errorType, exception)\<close> produced.\<close>

fun isError :: "message \<Rightarrow> bool" where
  "isError (Message lv messageId ps) = (lv = Error)"

text \<open>
  The messages that searching the descriptions of one folder can log: anything but an
  error and the cascade's own \<open>searchInFolder\<close>.
\<close>

fun localMessage :: "message \<Rightarrow> bool" where
  "localMessage (Message lv messageId ps) =
     (lv \<noteq> Error \<and> \<not> (lv = Trace \<and> messageId = ''searchInFolder''))"

text \<open>The parent of an absolute folder, as the next call of the cascade resolves it.\<close>

definition parentFolder :: "('l, 'c, 'p) env \<Rightarrow> string \<Rightarrow> string" where
  "parentFolder e folder = resolve e (cwd e) (dirname e folder)"


text \<open>Going up \<open>k\<close> times from a folder leads to a folder that is its own parent.\<close>

definition reachesRoot :: "('l, 'c, 'p) env \<Rightarrow> nat \<Rightarrow> string \<Rightarrow> bool" where
  "reachesRoot e k folder =
     (dirname e ((parentFolder e ^^ k) folder) = (parentFolder e ^^ k) folder)"

text \<open>
  The entries of a listing that a base name matches: those that start with \<open>baseName\<close>
  and have a loader, in the order of the listing.
\<close>

definition matchingEntries ::
  "('l, 'c, 'p) env \<Rightarrow> 'l parameters \<Rightarrow> string \<Rightarrow> string list \<Rightarrow> string list" where
  "matchingEntries e p baseName fileNames =
     filter (\<lambda>fName. prefix baseName fName \<and>
               getLoaderFor e (modulePaths p) fName (Some (drop (length baseName) fName)) \<noteq> None)
       fileNames"






subsection \<open>An example instance\<close>

text \<open>
  A small file system, to run the methods on.  Paths are absolute POSIX paths:
  \<open>/a\<close> holds \<open>cfg.json\<close>, \<open>cfg.yaml\<close> and \<open>readme\<close>; \<open>/a/b\<close> holds a \<open>cfg.json\<close> that its
  loader finds empty; \<open>/a/c\<close> holds a \<open>cfg.json\<close> on which the loader throws an
  \<open>Error\<close>; \<open>/a/d\<close> holds a \<open>cfg.json\<close> on which the loader throws \<open>undefined\<close>, and
  an empty folder \<open>e\<close>; every other folder is empty.  Loaders are numbers: 1 for
  \<open>json\<close>, 2 for \<open>yaml\<close>.  \<open>exJoin\<close> resolves one leading \<open>../\<close> of the file.
\<close>

definition exDirname :: "string \<Rightarrow> string" where
  "exDirname path =
     (let d = rev (drop 1 (dropWhile (\<lambda>c. c \<noteq> CHR ''/'') (rev path)))
      in if d = [] then ''/'' else d)"

definition exBasename :: "string \<Rightarrow> string" where
  "exBasename path = rev (takeWhile (\<lambda>c. c \<noteq> CHR ''/'') (rev path))"

definition exJoin :: "string \<Rightarrow> string \<Rightarrow> string" where
  "exJoin folder file =
     (let up = prefix ''../'' file;
          parent = (if up then exDirname folder else folder);
          rest = (if up then drop 3 file else file)
      in if parent = ''/'' then parent @ rest else parent @ ''/'' @ rest)"

definition exResolve :: "string \<Rightarrow> string \<Rightarrow> string" where
  "exResolve base path = (if prefix ''/'' path then path else exJoin base path)"

definition exLoaderFor :: "string list \<Rightarrow> string \<Rightarrow> string option \<Rightarrow> nat namedLoader option" where
  "exLoaderFor paths file extension =
     (if extension = Some ''json'' \<or> (extension = None \<and> suffix ''.json'' file)
      then Some \<lparr>name = Some ''json'', loader = 1\<rparr>
      else if extension = Some ''yaml'' \<or> (extension = None \<and> suffix ''.yaml'' file)
      then Some \<lparr>name = Some ''yaml'', loader = 2\<rparr>
      else None)"

definition exFolderContent :: "string \<Rightarrow> error + string list" where
  "exFolderContent folder =
     (if folder = ''/a'' then Inr [''cfg.json'', ''cfg.yaml'', ''readme'']
      else if folder = ''/a/b'' \<or> folder = ''/a/c'' \<or> folder = ''/a/d'' then Inr [''cfg.json'']
      else Inr [])"

definition exLoadFile :: "string \<Rightarrow> nat \<Rightarrow> error + string option" where
  "exLoadFile file l =
     (if file = ''/a/cfg.json'' then Inr (Some ''{}'')
      else if file = ''/a/c/cfg.json'' then Inl (Exception ''bad'')
      else if file = ''/a/d/cfg.json'' then Inl Undefined
      else Inr None)"

definition exEnv :: "(nat, string, string) env" where
  "exEnv =
     \<lparr>cwd = ''/a/b'', resolve = exResolve, dirname = exDirname, basename = exBasename,
      join = exJoin,
      requireResolve = (\<lambda>nm from. if nm = ''./cfg.json'' then Some (exJoin from ''cfg.json'') else None),
      getLoaderFor = exLoaderFor,
      parse = (\<lambda>content context. Inr (Some content)),
      isFolder = (\<lambda>path. Inr (path \<in> {''/'', ''/a'', ''/a/b'', ''/a/c'', ''/a/d'', ''/a/d/e''})),
      fileExits = (\<lambda>path. Inr (path \<in> {''/a/cfg.json'', ''/a/cfg.yaml'', ''/a/readme'',
                                          ''/a/b/cfg.json'', ''/a/c/cfg.json'',
                                          ''/a/d/cfg.json''})),
      folderContent = exFolderContent,
      loadFile = exLoadFile\<rparr>"

definition exParameters :: "nat parameters" where
  "exParameters =
     \<lparr>cache = True, searchStop = ''/'', modulePaths = [], files = [FileBasename ''cfg'']\<rparr>"

definition exState :: "(nat, string) state" where
  "exState =
     \<lparr>folderCache = Map.empty, contentCache = Map.empty, logged = [], issued = [], allocated = 0\<rparr>"

section \<open>What each method changes\<close>

subsection \<open>Fields of the state\<close>

lemma log_fields [simp]:
  "logged (log m s) = logged s @ [m]"
  "issued (log m s) = issued s"
  "contentCache (log m s) = contentCache s"
  "folderCache (log m s) = folderCache s"
  "allocated (log m s) = allocated s"
  by (simp_all add: log_def)

lemma yieldRequest_fields [simp]:
  "logged (yieldRequest r s) = logged s"
  "issued (yieldRequest r s) = issued s @ [r]"
  "contentCache (yieldRequest r s) = contentCache s"
  "folderCache (yieldRequest r s) = folderCache s"
  "allocated (yieldRequest r s) = allocated s"
  by (simp_all add: yieldRequest_def)

lemma cacheContent_fields [simp]:
  "logged (cacheContent p k r s) = logged s"
  "issued (cacheContent p k r s) = issued s"
  "folderCache (cacheContent p k r s) = folderCache s"
  "allocated (cacheContent p k r s) = allocated s"
  "contentCache (cacheContent p k r s) = (if cache p then (contentCache s)(k \<mapsto> r) else contentCache s)"
  by (simp_all add: cacheContent_def)

text \<open>The message of an exception, when there is one, is an error message.\<close>

lemma errorMessage_Inr:
  "errorMessage t x = Inr m \<Longrightarrow> isError m \<and> \<not> localMessage m \<and> visitedFolders [m] = []
     \<and> x \<noteq> Undefined"
  by (cases x) (auto split: if_splits)

lemma errorMessage_Inl: "errorMessage t x = Inl y \<Longrightarrow> x = Undefined"
  by (cases x) (auto split: if_splits)

lemma errorMessage_text: "x \<noteq> Undefined \<Longrightarrow> \<exists>m. errorMessage t x = Inr m"
  by (cases x) auto

lemma logException_Inr:
  "logException t x s = Inr s' \<Longrightarrow> \<exists>m. errorMessage t x = Inr m \<and> s' = log m s"
  by (auto simp: logException_def split: sum.splits)

lemma logException_Inl: "logException t x s = Inl y \<Longrightarrow> x = Undefined"
  by (auto simp: logException_def split: sum.splits dest: errorMessage_Inl)

text \<open>
  The \<open>catch\<close> block of \<open>searchConfigInFolder\<close>: either the exception is logged and
  \<open>undefined\<close> cached and returned, or \<open>log\<close> throws and nothing changes.
\<close>

lemma catchLoading_cases [consumes 1, case_names logged thrown]:
  assumes "catchLoading p folder x s = (s', res)"
  obtains
    (logged) m where "errorMessage ''loading'' x = Inr m" "x \<noteq> Undefined"
      "s' = cacheContent p folder None (log m s)" "res = Inr None"
  | (thrown) y where "x = Undefined" "s' = s" "res = Inl y"
  using assms
  by (auto simp: catchLoading_def logException_def split: sum.splits
      dest: errorMessage_Inl errorMessage_Inr)

lemma visitedFolders_append [simp]:
  "visitedFolders (xs @ ys) = visitedFolders xs @ visitedFolders ys"
  by (induction xs rule: visitedFolders.induct) simp_all


lemma localMessage_not_error: "localMessage m \<Longrightarrow> \<not> isError m"
  by (cases m) simp

text \<open>What \<open>loadConfigFile\<close> and \<open>searchFileAndLoader\<close> log and yield.\<close>

lemma loadConfigFile_logged:
  assumes "loadConfigFile e p s f l = (s', r)"
  shows "\<exists>ms. logged s' = logged s @ ms \<and> ms \<noteq> [] \<and> (\<forall>m\<in>set ms. localMessage m)"
  using assms
  by (auto simp: loadConfigFile_def Let_def split: option.splits sum.splits if_splits)


lemma searchFileAndLoader_logged:
  assumes "searchFileAndLoader e p s folder d = (s', r)"
  shows "\<exists>ms. logged s' = logged s @ ms \<and> (\<forall>m\<in>set ms. localMessage m)"
  using assms
  by (cases d) (auto simp: Let_def split: option.splits sum.splits if_splits list.splits bool.splits)

subsection \<open>The descriptions of one folder\<close>

lemma searchDescriptions_logged:
  assumes "searchDescriptions e p s folder ds = (s', r)"
  shows "\<exists>ms. logged s' = logged s @ ms \<and> (\<forall>m\<in>set ms. localMessage m)
              \<and> (\<forall>x. r = Inr (Some x) \<longrightarrow> ms \<noteq> [])"
  using assms
proof (induction ds arbitrary: s)
  case Nil
  then show ?case by auto
next
  case (Cons d ds)
  obtain s1 r1 where sf: "searchFileAndLoader e p s folder d = (s1, r1)"
    by (cases "searchFileAndLoader e p s folder d")
  from searchFileAndLoader_logged [OF sf] obtain ms1
    where ms1: "logged s1 = logged s @ ms1" "\<forall>m\<in>set ms1. localMessage m" by blast
  show ?case
  proof (cases r1)
    case (Inl x)
    with Cons.prems sf ms1 show ?thesis by auto
  next
    case (Inr found)
    show ?thesis
    proof (cases found)
      case None
      with Cons.prems sf Inr have "searchDescriptions e p s1 folder ds = (s', r)" by simp
      from Cons.IH [OF this] ms1 show ?thesis by auto
    next
      case (Some fl)
      obtain s2 r2 where lf: "loadConfigFile e p s1 (foundFileName fl)
          (Some \<lparr>name = foundLoaderName fl, loader = foundLoader fl\<rparr>) = (s2, r2)"
        by (cases "loadConfigFile e p s1 (foundFileName fl)
          (Some \<lparr>name = foundLoaderName fl, loader = foundLoader fl\<rparr>)")
      from loadConfigFile_logged [OF lf] obtain ms2
        where ms2: "logged s2 = logged s1 @ ms2" "\<forall>m\<in>set ms2. localMessage m" by blast
      show ?thesis
      proof (cases r2)
        case (Inl x)
        with Cons.prems sf Inr Some lf ms1 ms2 show ?thesis by auto
      next
        case r2: (Inr res)
        show ?thesis
        proof (cases res)
          case None
          with Cons.prems sf Inr Some lf r2
          have "searchDescriptions e p s2 folder ds = (s', r)" by simp
          from Cons.IH [OF this] ms1 ms2 show ?thesis by auto
        next
          case (Some result)
          with Cons.prems sf Inr \<open>found = Some fl\<close> lf r2 ms1 ms2 show ?thesis by auto
        qed
      qed
    qed
  qed
qed



text \<open>The candidates of a base name are entries of the listing, joined to the folder.\<close>

lemma loadersOf_matching:
  "loadersOf e p folderName baseName fileNames =
     map (\<lambda>fName.
            \<lparr>foundFileName = join e folderName fName,
             foundLoaderName =
               name (the (getLoaderFor e (modulePaths p) fName (Some (drop (length baseName) fName)))),
             foundLoader =
               loader (the (getLoaderFor e (modulePaths p) fName (Some (drop (length baseName) fName))))\<rparr>)
       (matchingEntries e p baseName fileNames)"
  by (induction fileNames)
     (auto simp: loadersOf_def matchingEntries_def List.map_filter_def split: option.splits)







text \<open>One call of \<open>searchConfigInFolder\<close>, case by case.\<close>

lemma searchConfigInFolder_hit:
  assumes "contentCache s (resolve e (cwd e) folder) = Some cached"
  shows "searchConfigInFolder (Suc n) e p s folder =
    Some (log (Message Trace ''loadedFromCache'' [])
            (log (Message Trace ''searchInFolder'' [resolve e (cwd e) folder]) s), Inr cached)"
  using assms by (simp add: Let_def)

lemma searchConfigInFolder_throws:
  assumes "contentCache s (resolve e (cwd e) folder) = None"
    and "searchConfigUsingDescriptions e p
           (log (Message Trace ''searchInFolder'' [resolve e (cwd e) folder]) s)
           (resolve e (cwd e) folder) = (s2, Inl x)"
  shows "searchConfigInFolder (Suc n) e p s folder =
    Some (catchLoading p (resolve e (cwd e) folder) x s2)"
  using assms by (simp add: Let_def)

lemma searchConfigInFolder_stays:
  assumes "contentCache s (resolve e (cwd e) folder) = None"
    and "searchConfigUsingDescriptions e p
           (log (Message Trace ''searchInFolder'' [resolve e (cwd e) folder]) s)
           (resolve e (cwd e) folder) = (s2, Inr result)"
    and "result \<noteq> None \<or> resolve e (cwd e) folder = searchStop p
          \<or> dirname e (resolve e (cwd e) folder) = resolve e (cwd e) folder"
  shows "searchConfigInFolder (Suc n) e p s folder =
    Some (cacheContent p (resolve e (cwd e) folder) result s2, Inr result)"
  using assms by (auto simp add: Let_def)

lemma searchConfigInFolder_climbs:
  assumes "contentCache s (resolve e (cwd e) folder) = None"
    and "searchConfigUsingDescriptions e p
           (log (Message Trace ''searchInFolder'' [resolve e (cwd e) folder]) s)
           (resolve e (cwd e) folder) = (s2, Inr None)"
    and "resolve e (cwd e) folder \<noteq> searchStop p"
    and "dirname e (resolve e (cwd e) folder) \<noteq> resolve e (cwd e) folder"
  shows "searchConfigInFolder (Suc n) e p s folder =
    (case searchConfigInFolder n e p s2 (dirname e (resolve e (cwd e) folder)) of
       None \<Rightarrow> None
     | Some (s3, Inl x) \<Rightarrow> Some (catchLoading p (resolve e (cwd e) folder) x s3)
     | Some (s3, Inr found) \<Rightarrow>
         Some (cacheContent p (resolve e (cwd e) folder) found s3, Inr found))"
  using assms by (simp add: Let_def)

subsection \<open>The calls of the cascade\<close>

lemma searchConfigInFolder_cases [consumes 1, case_names hit throws stays climbs caught]:
  assumes run: "searchConfigInFolder (Suc n) e p s folder = Some (s', res)"
  obtains
    (hit) cached where "contentCache s (resolve e (cwd e) folder) = Some cached"
      "s' = log (Message Trace ''loadedFromCache'' [])
              (log (Message Trace ''searchInFolder'' [resolve e (cwd e) folder]) s)"
      "res = Inr cached"
  | (throws) s2 x where "contentCache s (resolve e (cwd e) folder) = None"
      "searchConfigUsingDescriptions e p
         (log (Message Trace ''searchInFolder'' [resolve e (cwd e) folder]) s)
         (resolve e (cwd e) folder) = (s2, Inl x)"
      "catchLoading p (resolve e (cwd e) folder) x s2 = (s', res)"
  | (stays) s2 result where "contentCache s (resolve e (cwd e) folder) = None"
      "searchConfigUsingDescriptions e p
         (log (Message Trace ''searchInFolder'' [resolve e (cwd e) folder]) s)
         (resolve e (cwd e) folder) = (s2, Inr result)"
      "result \<noteq> None \<or> resolve e (cwd e) folder = searchStop p
          \<or> dirname e (resolve e (cwd e) folder) = resolve e (cwd e) folder"
      "s' = cacheContent p (resolve e (cwd e) folder) result s2"
      "res = Inr result"
  | (climbs) s2 s3 found where "contentCache s (resolve e (cwd e) folder) = None"
      "searchConfigUsingDescriptions e p
         (log (Message Trace ''searchInFolder'' [resolve e (cwd e) folder]) s)
         (resolve e (cwd e) folder) = (s2, Inr None)"
      "resolve e (cwd e) folder \<noteq> searchStop p"
      "dirname e (resolve e (cwd e) folder) \<noteq> resolve e (cwd e) folder"
      "searchConfigInFolder n e p s2 (dirname e (resolve e (cwd e) folder)) = Some (s3, Inr found)"
      "s' = cacheContent p (resolve e (cwd e) folder) found s3"
      "res = Inr found"
  | (caught) s2 s3 x where "contentCache s (resolve e (cwd e) folder) = None"
      "searchConfigUsingDescriptions e p
         (log (Message Trace ''searchInFolder'' [resolve e (cwd e) folder]) s)
         (resolve e (cwd e) folder) = (s2, Inr None)"
      "resolve e (cwd e) folder \<noteq> searchStop p"
      "dirname e (resolve e (cwd e) folder) \<noteq> resolve e (cwd e) folder"
      "searchConfigInFolder n e p s2 (dirname e (resolve e (cwd e) folder)) = Some (s3, Inl x)"
      "catchLoading p (resolve e (cwd e) folder) x s3 = (s', res)"
proof (cases "contentCache s (resolve e (cwd e) folder)")
  case (Some cached)
  with run hit show ?thesis by (simp add: Let_def)
next
  case None
  obtain s2 loc where loc: "searchConfigUsingDescriptions e p
         (log (Message Trace ''searchInFolder'' [resolve e (cwd e) folder]) s)
         (resolve e (cwd e) folder) = (s2, loc)"
    by (cases "searchConfigUsingDescriptions e p
         (log (Message Trace ''searchInFolder'' [resolve e (cwd e) folder]) s)
         (resolve e (cwd e) folder)")
  show ?thesis
  proof (cases loc)
    case (Inl x)
    with run None loc throws show ?thesis by (simp add: Let_def)
  next
    case (Inr result)
    show ?thesis
    proof (cases "result \<noteq> None \<or> resolve e (cwd e) folder = searchStop p
          \<or> dirname e (resolve e (cwd e) folder) = resolve e (cwd e) folder")
      case True
      with run None loc Inr have "s' = cacheContent p (resolve e (cwd e) folder) result s2"
        and "res = Inr result"
        by (auto simp: Let_def split: if_splits)
      with stays None loc Inr True show ?thesis by simp
    next
      case False
      with run None loc Inr
      have rec: "(case searchConfigInFolder n e p s2 (dirname e (resolve e (cwd e) folder)) of
                   None \<Rightarrow> None
                 | Some (s3, Inl x) \<Rightarrow> Some (catchLoading p (resolve e (cwd e) folder) x s3)
                 | Some (s3, Inr found) \<Rightarrow>
                     Some (cacheContent p (resolve e (cwd e) folder) found s3, Inr found))
                = Some (s', res)"
        by (simp add: Let_def)
      then obtain s3 pres where par:
        "searchConfigInFolder n e p s2 (dirname e (resolve e (cwd e) folder)) = Some (s3, pres)"
        by (auto split: option.splits)
      show ?thesis
      proof (cases pres)
        case (Inl x)
        with rec par have "catchLoading p (resolve e (cwd e) folder) x s3 = (s', res)" by simp
        with caught [of s2 s3 x] None loc Inr False par Inl show ?thesis by simp
      next
        case found: (Inr found)
        with rec par have "s' = cacheContent p (resolve e (cwd e) folder) found s3"
          "res = Inr found" by simp_all
        with climbs [of s2 s3 found] None loc Inr False par found show ?thesis by simp
      qed
    qed
  qed
qed

lemma catchLoading_logged:
  assumes "catchLoading p folder x s = (s', res)"
  shows "\<exists>ms. logged s' = logged s @ ms \<and> visitedFolders ms = [] \<and> issued s' = issued s
        \<and> folderCache s' = folderCache s"
  using assms
proof (cases rule: catchLoading_cases)
  case (logged m)
  with errorMessage_Inr [OF logged(1)] show ?thesis by simp
next
  case (thrown y)
  then show ?thesis by simp
qed

lemma searchConfigInFolder_logged:
  "searchConfigInFolder n e p s folder = Some (s', res) \<Longrightarrow> \<exists>ms. logged s' = logged s @ ms"
proof (induction n arbitrary: s folder s' res)
  case 0
  then show ?case by simp
next
  case (Suc n)
  from Suc.prems show ?case
  proof (cases rule: searchConfigInFolder_cases)
    case (hit cached)
    then show ?thesis by simp
  next
    case (throws s2 x)
    with searchDescriptions_logged [OF throws(2) [unfolded searchConfigUsingDescriptions_def]]
      catchLoading_logged [OF throws(3)]
    show ?thesis by auto
  next
    case (stays s2 result)
    with searchDescriptions_logged [OF stays(2) [unfolded searchConfigUsingDescriptions_def]]
    show ?thesis by auto
  next
    case (climbs s2 s3 found)
    from searchDescriptions_logged [OF climbs(2) [unfolded searchConfigUsingDescriptions_def]]
    obtain ms where "logged s2 = logged s @ Message Trace ''searchInFolder'' [resolve e (cwd e) folder] # ms"
      by auto
    moreover from Suc.IH [OF climbs(5)] obtain ms' where "logged s3 = logged s2 @ ms'" by blast
    ultimately show ?thesis using climbs(6) by simp
  next
    case (caught s2 s3 x)
    from searchDescriptions_logged [OF caught(2) [unfolded searchConfigUsingDescriptions_def]]
    obtain ms where "logged s2 = logged s @ Message Trace ''searchInFolder'' [resolve e (cwd e) folder] # ms"
      by auto
    moreover from Suc.IH [OF caught(5)] obtain ms' where "logged s3 = logged s2 @ ms'" by blast
    moreover from catchLoading_logged [OF caught(6)] obtain ms''
      where "logged s' = logged s3 @ ms''" by blast
    ultimately show ?thesis by simp
  qed
qed





text \<open>
  A call returns (with a value or an exception) when the chain of parents reaches a
  folder that is its own parent.
\<close>

lemma searchConfigInFolder_returns:
  "reachesRoot e k (resolve e (cwd e) folder) \<Longrightarrow>
   \<exists>s' res. searchConfigInFolder (Suc k) e p s folder = Some (s', res)"
proof (induction k arbitrary: s folder)
  case 0
  let ?abs = "resolve e (cwd e) folder"
  from 0 have root: "dirname e ?abs = ?abs" by (simp add: reachesRoot_def)
  show ?case
  proof (cases "contentCache s ?abs")
    case (Some cached)
    from searchConfigInFolder_hit [OF this] show ?thesis by blast
  next
    case None
    obtain s2 loc where loc: "searchConfigUsingDescriptions e p
         (log (Message Trace ''searchInFolder'' [?abs]) s) ?abs = (s2, loc)"
      by (cases "searchConfigUsingDescriptions e p
         (log (Message Trace ''searchInFolder'' [?abs]) s) ?abs")
    show ?thesis
    proof (cases loc)
      case (Inl x)
      with searchConfigInFolder_throws [OF None, of p s2 x 0] loc show ?thesis
        by (cases "catchLoading p ?abs x s2") simp
    next
      case (Inr result)
      with searchConfigInFolder_stays [OF None] loc root show ?thesis by blast
    qed
  qed
next
  case (Suc k)
  let ?abs = "resolve e (cwd e) folder"
  from Suc.prems have "reachesRoot e k (resolve e (cwd e) (dirname e ?abs))"
    by (simp add: reachesRoot_def funpow_swap1 parentFolder_def)
  from Suc.IH [OF this] have up: "\<And>s. \<exists>s' res.
      searchConfigInFolder (Suc k) e p s (dirname e ?abs) = Some (s', res)" .
  show ?case
  proof (cases "contentCache s ?abs")
    case (Some cached)
    from searchConfigInFolder_hit [OF this] show ?thesis by blast
  next
    case None
    obtain s2 loc where loc: "searchConfigUsingDescriptions e p
         (log (Message Trace ''searchInFolder'' [?abs]) s) ?abs = (s2, loc)"
      by (cases "searchConfigUsingDescriptions e p
         (log (Message Trace ''searchInFolder'' [?abs]) s) ?abs")
    show ?thesis
    proof (cases loc)
      case (Inl x)
      with searchConfigInFolder_throws [OF None, of p s2 x "Suc k"] loc show ?thesis
        by (cases "catchLoading p ?abs x s2") simp
    next
      case (Inr result)
      show ?thesis
      proof (cases "result \<noteq> None \<or> ?abs = searchStop p \<or> dirname e ?abs = ?abs")
        case True
        with searchConfigInFolder_stays [OF None] loc Inr show ?thesis by blast
      next
        case False
        with loc Inr have loc': "searchConfigUsingDescriptions e p
         (log (Message Trace ''searchInFolder'' [?abs]) s) ?abs = (s2, Inr None)" by simp
        from up [of s2] obtain s3 pres where
          "searchConfigInFolder (Suc k) e p s2 (dirname e ?abs) = Some (s3, pres)" by blast
        with searchConfigInFolder_climbs [OF None loc', of "Suc k"] False
        show ?thesis
          by (cases pres; cases "catchLoading p ?abs (projl pres) s3") auto
      qed
    qed
  qed
qed

text \<open>The definitions to unfold when a method is run on the example instance.\<close>

lemmas ex_defs = searchConfig_def exEnv_def exParameters_def exState_def yieldRequest_def
  log_def logException_def catchLoading_def catchInternal_def catchLoad_def
  searchConfigUsingDescriptions_def loadConfigFile_def cacheContent_def
  loadersOf_def exDirname_def exBasename_def exJoin_def exResolve_def exLoaderFor_def
  exFolderContent_def exLoadFile_def List.map_filter_def Let_def parentFolder_def

section \<open>The cascade: stop folder, root, cache entries\<close>











text \<open>
  Claim C9, contradicted by the code.  With caching enabled, a search from \<open>/a/d/e\<close>
  goes through \<open>/a/d/e\<close> and \<open>/a/d\<close>, where the loader throws \<open>undefined\<close>: \<open>log\<close> throws
  in the \<open>catch\<close> block of the call on \<open>/a/d\<close>, which is left before its cache write.  The
  search returns \<open>undefined\<close>, cached under \<open>/a/d/e\<close>, and \<open>/a/d\<close> has no cache entry.
\<close>

theorem visited_folder_without_cache_entry:
  "\<exists>s'. searchConfig 3 exEnv exParameters exState (Some ''/a/d/e'') = Some (s', Inr None)
     \<and> cache exParameters
     \<and> visitedFolders (logged s') = [''/a/d/e'', ''/a/d'']
     \<and> contentCache s' ''/a/d/e'' = Some None
     \<and> contentCache s' ''/a/d'' = None"
  by (simp add: ex_defs eval_nat_numeral)

section \<open>Errors: what a search and a load return\<close>

lemma error_ends_without_result:
  "searchConfigInFolder n e p s folder = Some (s', res) \<Longrightarrow> logged s' = logged s @ ms \<Longrightarrow>
   \<exists>m\<in>set ms. isError m \<Longrightarrow> res \<noteq> Inr (Some found)"
proof (induction n arbitrary: s folder s' res ms)
  case 0
  then show ?case by simp
next
  case (Suc n)
  let ?abs = "resolve e (cwd e) folder"
  from Suc.prems(1) show ?case
  proof (cases rule: searchConfigInFolder_cases)
    case (hit cached)
    with Suc.prems(2,3) show ?thesis by auto
  next
    case (throws s2 x)
    from throws(3) show ?thesis by (cases rule: catchLoading_cases) simp_all
  next
    case (stays s2 result)
    from searchDescriptions_logged [OF stays(2) [unfolded searchConfigUsingDescriptions_def]]
    obtain ms2 where "logged s2 = logged s @ Message Trace ''searchInFolder'' [?abs] # ms2"
      "\<forall>m\<in>set ms2. localMessage m"
      by auto
    with stays(4) Suc.prems(2,3) show ?thesis
      by (auto dest: localMessage_not_error)
  next
    case (climbs s2 s3 up)
    from searchDescriptions_logged [OF climbs(2) [unfolded searchConfigUsingDescriptions_def]]
    obtain ms2 where ms2: "logged s2 = logged s @ Message Trace ''searchInFolder'' [?abs] # ms2"
      "\<forall>m\<in>set ms2. localMessage m"
      by auto
    from searchConfigInFolder_logged [OF climbs(5)] obtain rest
      where rest: "logged s3 = logged s2 @ rest" by blast
    with ms2 climbs(6) Suc.prems(2)
    have "ms = Message Trace ''searchInFolder'' [?abs] # ms2 @ rest" by simp
    with Suc.prems(3) ms2(2) have "\<exists>m\<in>set rest. isError m"
      by (auto dest: localMessage_not_error)
    from Suc.IH [OF climbs(5) rest this] climbs(7) show ?thesis by simp
  next
    case (caught s2 s3 x)
    from caught(6) show ?thesis by (cases rule: catchLoading_cases) simp_all
  qed
qed

text \<open>
  Claim C2, amended.  An error that has a message (a \<open>ConfinodeError\<close>, an \<open>Error\<close>, a
  value with \<open>toString\<close>), thrown while the descriptions of a folder are tried, is caught
  and logged as a loading error, and the folder's outcome (cached when caching is on) is
  \<open>undefined\<close>; the cascade ends there: the call returns without searching the parent
  folder.  A call during which an error was logged returns no result.
\<close>

theorem loading_error_ends_search:
  "(contentCache s (resolve e (cwd e) folder) = None \<longrightarrow>
      searchConfigUsingDescriptions e p
        (log (Message Trace ''searchInFolder'' [resolve e (cwd e) folder]) s)
        (resolve e (cwd e) folder) = (s2, Inl x) \<longrightarrow>
      x \<noteq> Undefined \<longrightarrow>
      (\<exists>m. errorMessage ''loading'' x = Inr m \<and> isError m
         \<and> searchConfigInFolder (Suc k) e p s folder =
             Some (cacheContent p (resolve e (cwd e) folder) None (log m s2), Inr None)))
   \<and> (searchConfigInFolder n e p s folder = Some (s', res) \<longrightarrow>
      logged s' = logged s @ ms \<longrightarrow> (\<exists>m\<in>set ms. isError m) \<longrightarrow> res \<noteq> Inr (Some found))"
proof (rule conjI; intro impI)
  assume miss: "contentCache s (resolve e (cwd e) folder) = None"
    and loc: "searchConfigUsingDescriptions e p
        (log (Message Trace ''searchInFolder'' [resolve e (cwd e) folder]) s)
        (resolve e (cwd e) folder) = (s2, Inl x)"
    and hasText: "x \<noteq> Undefined"
  from errorMessage_text [OF hasText] obtain m where m: "errorMessage ''loading'' x = Inr m"
    by blast
  with searchConfigInFolder_throws [OF miss loc, of k] errorMessage_Inr [OF m]
  show "\<exists>m. errorMessage ''loading'' x = Inr m \<and> isError m
         \<and> searchConfigInFolder (Suc k) e p s folder =
             Some (cacheContent p (resolve e (cwd e) folder) None (log m s2), Inr None)"
    by (simp add: catchLoading_def logException_def)
next
  assume "searchConfigInFolder n e p s folder = Some (s', res)"
    and "logged s' = logged s @ ms" and "\<exists>m\<in>set ms. isError m"
  then show "res \<noteq> Inr (Some found)" by (rule error_ends_without_result)
qed

theorem loading_error_ends_search_witness:
  "\<exists>s2 s'.
     contentCache exState (resolve exEnv (cwd exEnv) ''/a/c'') = None
     \<and> searchConfigUsingDescriptions exEnv exParameters
          (log (Message Trace ''searchInFolder'' [''/a/c'']) exState) ''/a/c''
         = (s2, Inl (Exception ''bad''))
     \<and> Exception ''bad'' \<noteq> Undefined
     \<and> errorMessage ''loading'' (Exception ''bad'') = Inr (Message Error ''loadingError'' [''bad''])
     \<and> searchConfigInFolder 3 exEnv exParameters exState ''/a/c''
         = Some (cacheContent exParameters ''/a/c'' None
                   (log (Message Error ''loadingError'' [''bad'']) s2), Inr None)
     \<and> searchConfigInFolder 3 exEnv exParameters exState ''/a/c'' = Some (s', Inr None)
     \<and> logged s' = logged exState @
          [Message Trace ''searchInFolder'' [''/a/c''],
           Message Trace ''loadingFile'' [''/a/c/cfg.json''],
           Message Trace ''usingLoader'' [''json''],
           Message Error ''loadingError'' [''bad'']]
     \<and> isError (Message Error ''loadingError'' [''bad''])"
proof -
  define s2 where "s2 = fst (searchConfigUsingDescriptions exEnv exParameters
          (log (Message Trace ''searchInFolder'' [''/a/c'']) exState) ''/a/c'')"
  define s' where "s' = fst (the (searchConfigInFolder 3 exEnv exParameters exState ''/a/c''))"
  define res where "res = snd (the (searchConfigInFolder 3 exEnv exParameters exState ''/a/c''))"
  let ?ms = "[Message Trace ''searchInFolder'' [''/a/c''],
           Message Trace ''loadingFile'' [''/a/c/cfg.json''],
           Message Trace ''usingLoader'' [''json''],
           Message Error ''loadingError'' [''bad'']]"
  have abs: "resolve exEnv (cwd exEnv) ''/a/c'' = ''/a/c''"
    by (simp add: ex_defs)
  have miss: "contentCache exState (resolve exEnv (cwd exEnv) ''/a/c'') = None"
    by (simp add: exState_def)
  have loc: "searchConfigUsingDescriptions exEnv exParameters
      (log (Message Trace ''searchInFolder'' [resolve exEnv (cwd exEnv) ''/a/c'']) exState)
      (resolve exEnv (cwd exEnv) ''/a/c'') = (s2, Inl (Exception ''bad''))"
    unfolding s2_def by (simp add: ex_defs)
  have hasText: "Exception ''bad'' \<noteq> Undefined" by simp
  have msg: "errorMessage ''loading'' (Exception ''bad'')
      = Inr (Message Error ''loadingError'' [''bad''])" by simp
  have run: "searchConfigInFolder 3 exEnv exParameters exState ''/a/c'' = Some (s', res)"
    unfolding s'_def res_def by (simp add: ex_defs eval_nat_numeral)
  have none: "res = Inr None"
    unfolding res_def by (simp add: ex_defs eval_nat_numeral)
  have lg: "logged s' = logged exState @ ?ms"
    unfolding s'_def by (simp add: ex_defs eval_nat_numeral)
  have err: "\<exists>m\<in>set ?ms. isError m" by simp
  note inst = loading_error_ends_search
    [where s = exState and e = exEnv and folder = "''/a/c''" and p = exParameters
       and ?s2.0 = s2 and x = "Exception ''bad''" and k = 2 and n = 3 and s' = s'
       and res = res and ms = ?ms]
  from inst miss loc hasText obtain m where "errorMessage ''loading'' (Exception ''bad'') = Inr m"
    and "searchConfigInFolder (Suc 2) exEnv exParameters exState ''/a/c'' =
      Some (cacheContent exParameters (resolve exEnv (cwd exEnv) ''/a/c'') None (log m s2), Inr None)"
    by blast
  with msg abs have step: "searchConfigInFolder 3 exEnv exParameters exState ''/a/c'' =
      Some (cacheContent exParameters ''/a/c'' None
             (log (Message Error ''loadingError'' [''bad'']) s2), Inr None)"
    by (simp add: eval_nat_numeral del: searchConfigInFolder.simps)
  from inst run lg err have "\<And>found. res \<noteq> Inr (Some found)" by blast
  have loc': "searchConfigUsingDescriptions exEnv exParameters
          (log (Message Trace ''searchInFolder'' [''/a/c'']) exState) ''/a/c''
         = (s2, Inl (Exception ''bad''))"
    using loc by (simp only: abs)
  have run': "searchConfigInFolder 3 exEnv exParameters exState ''/a/c'' = Some (s', Inr None)"
    using run none by simp
  have err': "isError (Message Error ''loadingError'' [''bad''])" by simp
  from miss loc' hasText msg step run' lg err'
  have "contentCache exState (resolve exEnv (cwd exEnv) ''/a/c'') = None
     \<and> searchConfigUsingDescriptions exEnv exParameters
          (log (Message Trace ''searchInFolder'' [''/a/c'']) exState) ''/a/c''
         = (s2, Inl (Exception ''bad''))
     \<and> Exception ''bad'' \<noteq> Undefined
     \<and> errorMessage ''loading'' (Exception ''bad'') = Inr (Message Error ''loadingError'' [''bad''])
     \<and> searchConfigInFolder 3 exEnv exParameters exState ''/a/c''
         = Some (cacheContent exParameters ''/a/c'' None
                   (log (Message Error ''loadingError'' [''bad'']) s2), Inr None)
     \<and> searchConfigInFolder 3 exEnv exParameters exState ''/a/c'' = Some (s', Inr None)
     \<and> logged s' = logged exState @ ?ms
     \<and> isError (Message Error ''loadingError'' [''bad''])"
    by (intro conjI)
  then show ?thesis
    by (rule_tac x = s2 in exI, rule_tac x = s' in exI)
qed

theorem loading_error_continues_counterexample:
  "\<exists>s2 s' s3 found.
     searchConfigUsingDescriptions exEnv exParameters
          (log (Message Trace ''searchInFolder'' [''/a/c'']) exState) ''/a/c''
         = (s2, Inl (Exception ''bad''))
     \<and> ''/a/c'' \<noteq> searchStop exParameters
     \<and> dirname exEnv ''/a/c'' = ''/a'' \<and> ''/a'' \<noteq> ''/a/c''
     \<and> searchConfigInFolder 3 exEnv exParameters exState ''/a/c'' = Some (s', Inr None)
     \<and> visitedFolders (logged s') = [''/a/c'']
     \<and> issued s' = [RequestFolderContent ''/a/c'', RequestLoadConfigFile ''/a/c/cfg.json'' 1]
     \<and> searchConfigInFolder 2 exEnv exParameters
          (log (Message Error ''loadingError'' [''bad'']) s2) ''/a''
         = Some (s3, Inr (Some found))"
  by (simp add: ex_defs eval_nat_numeral)

text \<open>
  Claim C1, contradicted by the code.  A load by name of \<open>./cfg.json\<close> from \<open>/a/d\<close>,
  where the loader throws \<open>undefined\<close>, reaches the \<open>catch\<close> block of \<open>loadConfig\<close>, whose
  call of \<open>log\<close> throws a \<open>TypeError\<close>: the exception reaches the caller.  So does the
  one thrown in the \<open>catch\<close> block of \<open>searchConfig\<close> when the first request throws
  \<open>undefined\<close>.
\<close>

theorem load_and_search_raise_to_caller:
  "(\<exists>s. loadConfig exEnv exParameters exState ''./cfg.json'' (Some ''/a/d'')
         = (s, Inl (Exception ''Cannot read properties of undefined (reading toString)''))
       \<and> issued s = [RequestFileExits ''/a/d/cfg.json'',
                      RequestLoadConfigFile ''/a/d/cfg.json'' 1])
   \<and> (\<exists>s. searchConfig 3 (exEnv\<lparr>isFolder := \<lambda>path. Inl Undefined\<rparr>) exParameters exState
             (Some ''/a/b'')
         = Some (s, Inl (Exception ''Cannot read properties of undefined (reading toString)'')))"
  by (simp add: ex_defs loadConfig_def suffix_def eval_nat_numeral)

section \<open>The cache between two searches\<close>

text \<open>
  Claim C5, contradicted by the code.  With caching enabled, a first search from \<open>/a/d\<close>,
  where the loader throws \<open>undefined\<close>, lists the folder and reads the file; \<open>log\<close>
  throws in the \<open>catch\<close> block of \<open>searchConfigInFolder\<close>, so neither the folder nor the
  file gets an entry in \<open>contentCache\<close>, and the search returns \<open>undefined\<close>.  The second
  search from \<open>/a/d\<close> returns \<open>undefined\<close> too, and on its way yields the request to read
  the file again.
\<close>

theorem second_search_reads_again:
  "\<exists>s1 s2.
     cache exParameters
     \<and> searchConfig 1 exEnv exParameters exState (Some ''/a/d'') = Some (s1, Inr None)
     \<and> issued s1 = [RequestIsFolder ''/a/d'', RequestFolderContent ''/a/d'',
                      RequestLoadConfigFile ''/a/d/cfg.json'' 1]
     \<and> contentCache s1 ''/a/d'' = None \<and> contentCache s1 ''/a/d/cfg.json'' = None
     \<and> searchConfig 1 exEnv exParameters s1 (Some ''/a/d'') = Some (s2, Inr None)
     \<and> issued s2 = issued s1 @ [RequestIsFolder ''/a/d'',
                                  RequestLoadConfigFile ''/a/d/cfg.json'' 1]"
  by (simp add: ex_defs eval_nat_numeral)

section \<open>Descriptions, candidates and loading\<close>



text \<open>
  Claim C6.  For a base name, with the listing of the folder at hand (from the cache or
  from the driver): when no entry starting with the base name and a dot has a loader,
  nothing is found and nothing is logged; otherwise the first such entry of the listing
  is returned with its loader, no matching entry stands before it in the listing, and a
  \<open>multipleFiles\<close> warning is logged exactly when there is more than one such entry.
\<close>

theorem first_candidate_in_listing_order:
  assumes found: "searchFileAndLoader e p s folder (FileBasename description) = (s', r)"
    and listing: "folderCache s (dirname e (join e folder description)) = Some fileNames
      \<or> (folderCache s (dirname e (join e folder description)) = None
         \<and> folderContent e (dirname e (join e folder description)) = Inr fileNames)"
  shows "(matchingEntries e p (basename e description @ ''.'') fileNames = [] \<longrightarrow>
            r = Inr None \<and> logged s' = logged s)
     \<and> (matchingEntries e p (basename e description @ ''.'') fileNames = f # rest \<longrightarrow>
          (\<exists>l before after.
             getLoaderFor e (modulePaths p) f
               (Some (drop (length (basename e description @ ''.'')) f)) = Some l
             \<and> r = Inr (Some \<lparr>foundFileName = join e (dirname e (join e folder description)) f,
                              foundLoaderName = name l, foundLoader = loader l\<rparr>)
             \<and> logged s' = logged s @
                 (if rest = [] then []
                  else [Message Warning ''multipleFiles'' [join e folder description]])
             \<and> fileNames = before @ f # after
             \<and> matchingEntries e p (basename e description @ ''.'') before = []))"
proof (rule conjI; intro impI)
  assume none: "matchingEntries e p (basename e description @ ''.'') fileNames = []"
  show "r = Inr None \<and> logged s' = logged s"
    using listing
  proof (elim disjE)
    assume "folderCache s (dirname e (join e folder description)) = Some fileNames"
    with found none show ?thesis
      by (auto simp: Let_def loadersOf_matching)
  next
    assume "folderCache s (dirname e (join e folder description)) = None
         \<and> folderContent e (dirname e (join e folder description)) = Inr fileNames"
    with found none show ?thesis
      by (auto simp: Let_def loadersOf_matching)
  qed
next
  let ?bn = "basename e description @ ''.''"
  assume some: "matchingEntries e p ?bn fileNames = f # rest"
  then obtain before after where split: "fileNames = before @ f # after"
    and nb: "\<forall>u\<in>set before. \<not> (prefix ?bn u \<and>
        getLoaderFor e (modulePaths p) u (Some (drop (length ?bn) u)) \<noteq> None)"
    and hit: "getLoaderFor e (modulePaths p) f (Some (drop (length ?bn) f)) \<noteq> None"
    unfolding matchingEntries_def filter_eq_Cons_iff by blast
  from hit obtain l where l: "getLoaderFor e (modulePaths p) f (Some (drop (length ?bn) f)) = Some l"
    by blast
  from nb have before: "matchingEntries e p ?bn before = []"
    by (auto simp: matchingEntries_def filter_empty_conv)
  have res: "r = Inr (Some \<lparr>foundFileName = join e (dirname e (join e folder description)) f,
                              foundLoaderName = name l, foundLoader = loader l\<rparr>)
             \<and> logged s' = logged s @
                 (if rest = [] then []
                  else [Message Warning ''multipleFiles'' [join e folder description]])"
    using listing
  proof (elim disjE)
    assume "folderCache s (dirname e (join e folder description)) = Some fileNames"
    with found some l show ?thesis
      by (cases rest) (auto simp: Let_def loadersOf_matching)
  next
    assume "folderCache s (dirname e (join e folder description)) = None
         \<and> folderContent e (dirname e (join e folder description)) = Inr fileNames"
    with found some l show ?thesis
      by (cases rest) (auto simp: Let_def loadersOf_matching)
  qed
  with l split before
  show "\<exists>l before after.
             getLoaderFor e (modulePaths p) f (Some (drop (length ?bn) f)) = Some l
             \<and> r = Inr (Some \<lparr>foundFileName = join e (dirname e (join e folder description)) f,
                              foundLoaderName = name l, foundLoader = loader l\<rparr>)
             \<and> logged s' = logged s @
                 (if rest = [] then []
                  else [Message Warning ''multipleFiles'' [join e folder description]])
             \<and> fileNames = before @ f # after
             \<and> matchingEntries e p ?bn before = []"
    by blast
qed


theorem first_candidate_in_listing_order_witness:
  "\<exists>s' s''.
     searchFileAndLoader exEnv exParameters exState ''/a'' (FileBasename ''cfg'')
       = (s', Inr (Some \<lparr>foundFileName = ''/a/cfg.json'', foundLoaderName = Some ''json'',
                          foundLoader = 1\<rparr>))
     \<and> folderCache exState (dirname exEnv (join exEnv ''/a'' ''cfg'')) = None
     \<and> folderContent exEnv (dirname exEnv (join exEnv ''/a'' ''cfg''))
         = Inr [''cfg.json'', ''cfg.yaml'', ''readme'']
     \<and> matchingEntries exEnv exParameters (basename exEnv ''cfg'' @ ''.'')
          [''cfg.json'', ''cfg.yaml'', ''readme''] = [''cfg.json'', ''cfg.yaml'']
     \<and> logged s' = logged exState @ [Message Warning ''multipleFiles'' [''/a/cfg'']]
     \<and> searchFileAndLoader exEnv exParameters exState ''/'' (FileBasename ''cfg'')
         = (s'', Inr None)
     \<and> folderContent exEnv (dirname exEnv (join exEnv ''/'' ''cfg'')) = Inr []
     \<and> matchingEntries exEnv exParameters (basename exEnv ''cfg'' @ ''.'') [] = []
     \<and> logged s'' = logged exState"
proof -
  define s' where "s' = fst (searchFileAndLoader exEnv exParameters exState ''/a'' (FileBasename ''cfg''))"
  define r where "r = snd (searchFileAndLoader exEnv exParameters exState ''/a'' (FileBasename ''cfg''))"
  define s'' where "s'' = fst (searchFileAndLoader exEnv exParameters exState ''/'' (FileBasename ''cfg''))"
  define r'' where "r'' = snd (searchFileAndLoader exEnv exParameters exState ''/'' (FileBasename ''cfg''))"
  have found: "searchFileAndLoader exEnv exParameters exState ''/a'' (FileBasename ''cfg'') = (s', r)"
    by (simp add: s'_def r_def)
  have listing: "folderCache exState (dirname exEnv (join exEnv ''/a'' ''cfg'')) = None
      \<and> folderContent exEnv (dirname exEnv (join exEnv ''/a'' ''cfg''))
         = Inr [''cfg.json'', ''cfg.yaml'', ''readme'']"
    by (simp add: ex_defs)
  have matching: "matchingEntries exEnv exParameters (basename exEnv ''cfg'' @ ''.'')
          [''cfg.json'', ''cfg.yaml'', ''readme''] = ''cfg.json'' # [''cfg.yaml'']"
    by (simp add: matchingEntries_def ex_defs)
  have found': "searchFileAndLoader exEnv exParameters exState ''/'' (FileBasename ''cfg'') = (s'', r'')"
    by (simp add: s''_def r''_def)
  have listing': "folderCache exState (dirname exEnv (join exEnv ''/'' ''cfg'')) = None
      \<and> folderContent exEnv (dirname exEnv (join exEnv ''/'' ''cfg'')) = Inr []"
    by (simp add: ex_defs)
  have matching': "matchingEntries exEnv exParameters (basename exEnv ''cfg'' @ ''.'') [] = []"
    by (simp add: matchingEntries_def)
  from first_candidate_in_listing_order
    [OF found disjI2 [OF listing], of "''cfg.json''" "[''cfg.yaml'']"] matching
  obtain l where "getLoaderFor exEnv (modulePaths exParameters) ''cfg.json''
               (Some (drop (length (basename exEnv ''cfg'' @ ''.'')) ''cfg.json'')) = Some l"
    and "r = Inr (Some \<lparr>foundFileName = join exEnv (dirname exEnv (join exEnv ''/a'' ''cfg'')) ''cfg.json'',
                        foundLoaderName = name l, foundLoader = loader l\<rparr>)"
    and "logged s' = logged exState @ [Message Warning ''multipleFiles'' [join exEnv ''/a'' ''cfg'']]"
    by auto
  then have one: "r = Inr (Some \<lparr>foundFileName = ''/a/cfg.json'', foundLoaderName = Some ''json'',
                          foundLoader = 1\<rparr>)"
    "logged s' = logged exState @ [Message Warning ''multipleFiles'' [''/a/cfg'']]"
    by (auto simp: ex_defs)
  from first_candidate_in_listing_order [OF found' disjI2 [OF listing']] matching'
  have two: "r'' = Inr None" "logged s'' = logged exState"
    by auto
  from found found' one two listing listing' matching matching' show ?thesis
    by (rule_tac x = s' in exI, rule_tac x = s'' in exI) simp
qed

section \<open>Loading a matched file\<close>

text \<open>
  Claim C7.  When the loader of a matched file gives \<open>undefined\<close>, \<open>loadConfigFile\<close>
  logs \<open>emptyConfiguration\<close> and returns \<open>undefined\<close>; the description then counts as
  not matching: the remaining descriptions of the folder are tried from the state
  reached, and a folder whose descriptions all give nothing, that is not the stop folder
  and has a parent, hands the search over to its parent: the call on the parent returns
  (the chain of parents reaching a folder that is its own parent) and what it returns
  is what the folder's call returns.  A result returned by
  \<open>loadConfigFile\<close> without the cache comes from a content that the loader did not find
  empty and that \<open>description.parse\<close> turned into a value.
\<close>

theorem empty_content_is_no_match:
  "(contentCache s (resolve e (cwd e) fName) = None \<longrightarrow>
      loadFile e (resolve e (cwd e) fName) (loader l) = Inr None \<longrightarrow>
      snd (loadConfigFile e p s fName (Some l)) = Inr None
      \<and> last (logged (fst (loadConfigFile e p s fName (Some l))))
          = Message Trace ''emptyConfiguration'' [])
   \<and> (searchFileAndLoader e p s folder d = (s1, Inr (Some found)) \<longrightarrow>
      contentCache s1 (resolve e (cwd e) (foundFileName found)) = None \<longrightarrow>
      loadFile e (resolve e (cwd e) (foundFileName found)) (foundLoader found) = Inr None \<longrightarrow>
      searchDescriptions e p s folder (d # remaining) =
        searchDescriptions e p
          (fst (loadConfigFile e p s1 (foundFileName found)
                  (Some \<lparr>name = foundLoaderName found, loader = foundLoader found\<rparr>)))
          folder remaining)
   \<and> (contentCache s0 (resolve e (cwd e) start) = None \<longrightarrow>
      searchConfigUsingDescriptions e p
        (log (Message Trace ''searchInFolder'' [resolve e (cwd e) start]) s0)
        (resolve e (cwd e) start) = (s2, Inr None) \<longrightarrow>
      resolve e (cwd e) start \<noteq> searchStop p \<longrightarrow>
      dirname e (resolve e (cwd e) start) \<noteq> resolve e (cwd e) start \<longrightarrow>
      reachesRoot e k (parentFolder e (resolve e (cwd e) start)) \<longrightarrow>
      (\<exists>s3 up.
         searchConfigInFolder (Suc k) e p s2 (dirname e (resolve e (cwd e) start)) = Some (s3, up)
         \<and> searchConfigInFolder (Suc (Suc k)) e p s0 start =
             Some (case up of
                     Inl x \<Rightarrow> catchLoading p (resolve e (cwd e) start) x s3
                   | Inr result \<Rightarrow>
                       (cacheContent p (resolve e (cwd e) start) result s3, Inr result))))
   \<and> (contentCache s (resolve e (cwd e) fName) = None \<longrightarrow>
      loadConfigFile e p s fName given = (s', Inr (Some r)) \<longrightarrow>
      (\<exists>usedLoader content.
         loadFile e (resolve e (cwd e) fName) usedLoader = Inr (Some content)
         \<and> parse e content \<lparr>keyName = [], contextFileName = fName, final = True\<rparr>
             = Inr (Some (parsed r))))"
proof (intro conjI impI)
  assume "contentCache s (resolve e (cwd e) fName) = None"
    and "loadFile e (resolve e (cwd e) fName) (loader l) = Inr None"
  then show "snd (loadConfigFile e p s fName (Some l)) = Inr None"
    and "last (logged (fst (loadConfigFile e p s fName (Some l))))
          = Message Trace ''emptyConfiguration'' []"
    by (simp_all add: loadConfigFile_def Let_def split: option.splits)
next
  assume "searchFileAndLoader e p s folder d = (s1, Inr (Some found))"
    and "contentCache s1 (resolve e (cwd e) (foundFileName found)) = None"
    and "loadFile e (resolve e (cwd e) (foundFileName found)) (foundLoader found) = Inr None"
  then show "searchDescriptions e p s folder (d # remaining) =
        searchDescriptions e p
          (fst (loadConfigFile e p s1 (foundFileName found)
                  (Some \<lparr>name = foundLoaderName found, loader = foundLoader found\<rparr>)))
          folder remaining"
    by (simp add: loadConfigFile_def Let_def split: option.splits)
next
  assume miss: "contentCache s0 (resolve e (cwd e) start) = None"
    and loc: "searchConfigUsingDescriptions e p
        (log (Message Trace ''searchInFolder'' [resolve e (cwd e) start]) s0)
        (resolve e (cwd e) start) = (s2, Inr None)"
    and go: "resolve e (cwd e) start \<noteq> searchStop p"
      "dirname e (resolve e (cwd e) start) \<noteq> resolve e (cwd e) start"
    and root: "reachesRoot e k (parentFolder e (resolve e (cwd e) start))"
  from root have "reachesRoot e k (resolve e (cwd e) (dirname e (resolve e (cwd e) start)))"
    by (simp add: parentFolder_def)
  from searchConfigInFolder_returns [OF this, of p s2] obtain s3 up where
    par: "searchConfigInFolder (Suc k) e p s2 (dirname e (resolve e (cwd e) start)) = Some (s3, up)"
    by blast
  with searchConfigInFolder_climbs [OF miss loc go, of "Suc k"]
  have "searchConfigInFolder (Suc (Suc k)) e p s0 start =
             Some (case up of
                     Inl x \<Rightarrow> catchLoading p (resolve e (cwd e) start) x s3
                   | Inr result \<Rightarrow>
                       (cacheContent p (resolve e (cwd e) start) result s3, Inr result))"
    by (cases up) simp_all
  with par show "\<exists>s3 up.
         searchConfigInFolder (Suc k) e p s2 (dirname e (resolve e (cwd e) start)) = Some (s3, up)
         \<and> searchConfigInFolder (Suc (Suc k)) e p s0 start =
             Some (case up of
                     Inl x \<Rightarrow> catchLoading p (resolve e (cwd e) start) x s3
                   | Inr result \<Rightarrow>
                       (cacheContent p (resolve e (cwd e) start) result s3, Inr result))"
    by blast
next
  assume "contentCache s (resolve e (cwd e) fName) = None"
    and "loadConfigFile e p s fName given = (s', Inr (Some r))"
  then show "\<exists>usedLoader content.
         loadFile e (resolve e (cwd e) fName) usedLoader = Inr (Some content)
         \<and> parse e content \<lparr>keyName = [], contextFileName = fName, final = True\<rparr>
             = Inr (Some (parsed r))"
    by (simp add: loadConfigFile_def Let_def split: option.splits sum.splits if_splits)
      force+
qed

theorem empty_content_is_no_match_witness:
  "\<exists>s1 s2 s3 s' r.
     contentCache exState (resolve exEnv (cwd exEnv) ''/a/b/cfg.json'') = None
     \<and> loadFile exEnv (resolve exEnv (cwd exEnv) ''/a/b/cfg.json'')
          (loader \<lparr>name = Some ''json'', loader = 1\<rparr>) = Inr None
     \<and> snd (loadConfigFile exEnv exParameters exState ''/a/b/cfg.json''
               (Some \<lparr>name = Some ''json'', loader = 1\<rparr>)) = Inr None
     \<and> searchFileAndLoader exEnv exParameters
          (log (Message Trace ''searchInFolder'' [''/a/b'']) exState) ''/a/b'' (FileBasename ''cfg'')
         = (s1, Inr (Some \<lparr>foundFileName = ''/a/b/cfg.json'', foundLoaderName = Some ''json'',
                            foundLoader = 1\<rparr>))
     \<and> searchDescriptions exEnv exParameters
          (log (Message Trace ''searchInFolder'' [''/a/b'']) exState) ''/a/b''
          [FileBasename ''cfg'', FileBasename ''none'']
         = searchDescriptions exEnv exParameters
             (fst (loadConfigFile exEnv exParameters s1 ''/a/b/cfg.json''
                     (Some \<lparr>name = Some ''json'', loader = 1\<rparr>)))
             ''/a/b'' [FileBasename ''none'']
     \<and> contentCache exState (resolve exEnv (cwd exEnv) ''/a/b'') = None
     \<and> searchConfigUsingDescriptions exEnv exParameters
          (log (Message Trace ''searchInFolder'' [''/a/b'']) exState) ''/a/b'' = (s2, Inr None)
     \<and> ''/a/b'' \<noteq> searchStop exParameters \<and> dirname exEnv ''/a/b'' = ''/a''
     \<and> reachesRoot exEnv 1 (parentFolder exEnv ''/a/b'')
     \<and> searchConfigInFolder 2 exEnv exParameters s2 ''/a'' = Some (s3, Inr (Some r))
     \<and> searchConfigInFolder 3 exEnv exParameters exState ''/a/b''
         = Some (cacheContent exParameters ''/a/b'' (Some r) s3, Inr (Some r))
     \<and> fileName r = ''/a/cfg.json''
     \<and> loadConfigFile exEnv exParameters exState ''/a/cfg.json''
          (Some \<lparr>name = Some ''json'', loader = 1\<rparr>) = (s', Inr (Some r))
     \<and> loadFile exEnv ''/a/cfg.json'' 1 = Inr (Some ''{}'')
     \<and> parsed r = ''{}''"
proof -
  define l :: "nat namedLoader" where "l = \<lparr>name = Some ''json'', loader = 1\<rparr>"
  define found :: "nat fileAndLoader" where
    "found = \<lparr>foundFileName = ''/a/b/cfg.json'', foundLoaderName = Some ''json'', foundLoader = 1\<rparr>"
  define s0 where "s0 = log (Message Trace ''searchInFolder'' [''/a/b'']) exState"
  define s1 where "s1 = fst (searchFileAndLoader exEnv exParameters s0 ''/a/b'' (FileBasename ''cfg''))"
  define s2 where "s2 = fst (searchConfigUsingDescriptions exEnv exParameters s0 ''/a/b'')"
  define s' where "s' = fst (loadConfigFile exEnv exParameters exState ''/a/cfg.json'' (Some l))"
  define r :: "string confinodeResult" where
    "r = \<lparr>ref = 0, parsed = ''{}'', fileName = ''/a/cfg.json'', extends = []\<rparr>"
  have abs: "resolve exEnv (cwd exEnv) ''/a/b/cfg.json'' = ''/a/b/cfg.json''"
    "resolve exEnv (cwd exEnv) ''/a/b'' = ''/a/b''" "resolve exEnv (cwd exEnv) ''/a/cfg.json'' = ''/a/cfg.json''"
    "dirname exEnv ''/a/b'' = ''/a''" "searchStop exParameters = ''/''"
    by (simp_all add: ex_defs)
  have sel: "foundFileName found = ''/a/b/cfg.json''" "foundLoader found = 1" "loader l = 1"
    "foundLoaderName found = Some ''json''"
    by (simp_all add: found_def l_def)
  have a1: "contentCache exState (resolve exEnv (cwd exEnv) ''/a/b/cfg.json'') = None"
    by (simp add: exState_def)
  have a2: "loadFile exEnv (resolve exEnv (cwd exEnv) ''/a/b/cfg.json'') (loader l) = Inr None"
    by (simp add: ex_defs l_def)
  have b1: "searchFileAndLoader exEnv exParameters s0 ''/a/b'' (FileBasename ''cfg'')
      = (s1, Inr (Some found))"
    unfolding s1_def s0_def found_def by (simp add: ex_defs)
  have b2: "contentCache s1 (resolve exEnv (cwd exEnv) (foundFileName found)) = None"
    unfolding s1_def s0_def found_def by (simp add: ex_defs)
  have b3: "loadFile exEnv (resolve exEnv (cwd exEnv) (foundFileName found)) (foundLoader found)
      = Inr None"
    by (simp add: ex_defs found_def)
  have c1: "contentCache exState (resolve exEnv (cwd exEnv) ''/a/b'') = None"
    by (simp add: exState_def)
  have c2: "searchConfigUsingDescriptions exEnv exParameters
      (log (Message Trace ''searchInFolder'' [resolve exEnv (cwd exEnv) ''/a/b'']) exState)
      (resolve exEnv (cwd exEnv) ''/a/b'') = (s2, Inr None)"
    unfolding s2_def s0_def by (simp add: ex_defs)
  have c3: "resolve exEnv (cwd exEnv) ''/a/b'' \<noteq> searchStop exParameters"
    "dirname exEnv (resolve exEnv (cwd exEnv) ''/a/b'') \<noteq> resolve exEnv (cwd exEnv) ''/a/b''"
    by (simp_all add: ex_defs)
  have c4: "reachesRoot exEnv 1 (parentFolder exEnv (resolve exEnv (cwd exEnv) ''/a/b''))"
    by (simp add: reachesRoot_def ex_defs)
  have d1: "contentCache exState (resolve exEnv (cwd exEnv) ''/a/cfg.json'') = None"
    by (simp add: exState_def)
  have d2: "loadConfigFile exEnv exParameters exState ''/a/cfg.json'' (Some l) = (s', Inr (Some r))"
    unfolding s'_def l_def r_def by (simp add: ex_defs)
  note inst = empty_content_is_no_match
    [where e = exEnv and p = exParameters and s = exState and fName = "''/a/b/cfg.json''"
       and l = l and ?s0.0 = exState and start = "''/a/b''" and ?s2.0 = s2 and k = 1]
  note inst2 = empty_content_is_no_match
    [where e = exEnv and p = exParameters and s = s0 and folder = "''/a/b''"
       and d = "FileBasename ''cfg''" and ?s1.0 = s1 and found = found
       and remaining = "[FileBasename ''none'']"]
  note inst3 = empty_content_is_no_match
    [where e = exEnv and p = exParameters and s = exState and fName = "''/a/cfg.json''"
       and given = "Some l" and s' = s' and r = r]
  from inst a1 a2
  have A: "snd (loadConfigFile exEnv exParameters exState ''/a/b/cfg.json'' (Some l)) = Inr None"
    by blast
  from inst2 b1 b2 b3
  have B: "searchDescriptions exEnv exParameters s0 ''/a/b'' [FileBasename ''cfg'', FileBasename ''none'']
      = searchDescriptions exEnv exParameters
          (fst (loadConfigFile exEnv exParameters s1 (foundFileName found)
                  (Some \<lparr>name = foundLoaderName found, loader = foundLoader found\<rparr>)))
          ''/a/b'' [FileBasename ''none'']"
    by blast
  from inst c1 c2 c3 c4 obtain s3 up where
    up: "searchConfigInFolder (Suc 1) exEnv exParameters s2
           (dirname exEnv (resolve exEnv (cwd exEnv) ''/a/b'')) = Some (s3, up)"
    and C: "searchConfigInFolder (Suc (Suc 1)) exEnv exParameters exState ''/a/b''
      = Some (case up of
                Inl x \<Rightarrow> catchLoading exParameters (resolve exEnv (cwd exEnv) ''/a/b'') x s3
              | Inr result \<Rightarrow>
                  (cacheContent exParameters (resolve exEnv (cwd exEnv) ''/a/b'') result s3,
                   Inr result))"
    by blast
  have "snd (the (searchConfigInFolder (Suc 1) exEnv exParameters s2 ''/a'')) = Inr (Some r)"
    unfolding s2_def s0_def r_def by (simp add: ex_defs)
  with up abs have upr: "up = Inr (Some r)" by simp
  from up upr have C1: "searchConfigInFolder 2 exEnv exParameters s2 ''/a'' = Some (s3, Inr (Some r))"
    by (simp only: abs numeral_2_eq_2 One_nat_def)
  from C upr have C2: "searchConfigInFolder 3 exEnv exParameters exState ''/a/b''
         = Some (cacheContent exParameters ''/a/b'' (Some r) s3, Inr (Some r))"
    by (simp only: abs numeral_3_eq_3 One_nat_def sum.case)
  from inst3 d1 d2 obtain usedLoader content where
    "loadFile exEnv (resolve exEnv (cwd exEnv) ''/a/cfg.json'') usedLoader = Inr (Some content)"
    "parse exEnv content \<lparr>keyName = [], contextFileName = ''/a/cfg.json'', final = True\<rparr>
       = Inr (Some (parsed r))"
    by blast
  then have D: "parsed r = ''{}''" by (simp add: ex_defs split: if_splits)
  have E: "loadFile exEnv ''/a/cfg.json'' 1 = Inr (Some ''{}'')" by (simp add: ex_defs)
  have F: "fileName r = ''/a/cfg.json''" by (simp add: r_def)
  have a2': "loadFile exEnv (resolve exEnv (cwd exEnv) ''/a/b/cfg.json'')
          (loader \<lparr>name = Some ''json'', loader = 1::nat\<rparr>) = Inr None"
    using a2 by (simp only: l_def)
  have A': "snd (loadConfigFile exEnv exParameters exState ''/a/b/cfg.json''
               (Some \<lparr>name = Some ''json'', loader = 1\<rparr>)) = Inr None"
    using A by (simp only: l_def)
  have b1': "searchFileAndLoader exEnv exParameters
          (log (Message Trace ''searchInFolder'' [''/a/b'']) exState) ''/a/b'' (FileBasename ''cfg'')
         = (s1, Inr (Some \<lparr>foundFileName = ''/a/b/cfg.json'', foundLoaderName = Some ''json'',
                            foundLoader = 1\<rparr>))"
    using b1 by (simp only: s0_def found_def)
  have B': "searchDescriptions exEnv exParameters
          (log (Message Trace ''searchInFolder'' [''/a/b'']) exState) ''/a/b''
          [FileBasename ''cfg'', FileBasename ''none'']
         = searchDescriptions exEnv exParameters
             (fst (loadConfigFile exEnv exParameters s1 ''/a/b/cfg.json''
                     (Some \<lparr>name = Some ''json'', loader = 1\<rparr>)))
             ''/a/b'' [FileBasename ''none'']"
    using B by (simp only: sel s0_def)
  have c2': "searchConfigUsingDescriptions exEnv exParameters
          (log (Message Trace ''searchInFolder'' [''/a/b'']) exState) ''/a/b'' = (s2, Inr None)"
    using c2 by (simp only: abs)
  have c3': "''/a/b'' \<noteq> searchStop exParameters" "dirname exEnv ''/a/b'' = ''/a''"
    by (simp_all add: ex_defs)
  have c4': "reachesRoot exEnv 1 (parentFolder exEnv ''/a/b'')"
    using c4 by (simp only: abs)
  have d2': "loadConfigFile exEnv exParameters exState ''/a/cfg.json''
          (Some \<lparr>name = Some ''json'', loader = 1\<rparr>) = (s', Inr (Some r))"
    using d2 by (simp only: l_def)
  from a1 a2' A' b1' B' c1 c2' c3' c4' C1 C2 F d2' E D
  have "contentCache exState (resolve exEnv (cwd exEnv) ''/a/b/cfg.json'') = None
     \<and> loadFile exEnv (resolve exEnv (cwd exEnv) ''/a/b/cfg.json'')
          (loader \<lparr>name = Some ''json'', loader = 1\<rparr>) = Inr None
     \<and> snd (loadConfigFile exEnv exParameters exState ''/a/b/cfg.json''
               (Some \<lparr>name = Some ''json'', loader = 1\<rparr>)) = Inr None
     \<and> searchFileAndLoader exEnv exParameters
          (log (Message Trace ''searchInFolder'' [''/a/b'']) exState) ''/a/b'' (FileBasename ''cfg'')
         = (s1, Inr (Some \<lparr>foundFileName = ''/a/b/cfg.json'', foundLoaderName = Some ''json'',
                            foundLoader = 1\<rparr>))
     \<and> searchDescriptions exEnv exParameters
          (log (Message Trace ''searchInFolder'' [''/a/b'']) exState) ''/a/b''
          [FileBasename ''cfg'', FileBasename ''none'']
         = searchDescriptions exEnv exParameters
             (fst (loadConfigFile exEnv exParameters s1 ''/a/b/cfg.json''
                     (Some \<lparr>name = Some ''json'', loader = 1\<rparr>)))
             ''/a/b'' [FileBasename ''none'']
     \<and> contentCache exState (resolve exEnv (cwd exEnv) ''/a/b'') = None
     \<and> searchConfigUsingDescriptions exEnv exParameters
          (log (Message Trace ''searchInFolder'' [''/a/b'']) exState) ''/a/b'' = (s2, Inr None)
     \<and> ''/a/b'' \<noteq> searchStop exParameters \<and> dirname exEnv ''/a/b'' = ''/a''
     \<and> reachesRoot exEnv 1 (parentFolder exEnv ''/a/b'')
     \<and> searchConfigInFolder 2 exEnv exParameters s2 ''/a'' = Some (s3, Inr (Some r))
     \<and> searchConfigInFolder 3 exEnv exParameters exState ''/a/b''
         = Some (cacheContent exParameters ''/a/b'' (Some r) s3, Inr (Some r))
     \<and> fileName r = ''/a/cfg.json''
     \<and> loadConfigFile exEnv exParameters exState ''/a/cfg.json''
          (Some \<lparr>name = Some ''json'', loader = 1\<rparr>) = (s', Inr (Some r))
     \<and> loadFile exEnv ''/a/cfg.json'' 1 = Inr (Some ''{}'')
     \<and> parsed r = ''{}''"
    by (intro conjI)
  then show ?thesis
    by (rule_tac x = s1 in exI, rule_tac x = s2 in exI, rule_tac x = s3 in exI,
        rule_tac x = s' in exI, rule_tac x = r in exI)
qed

text \<open>
  Claim C8.  When the file is not in the cache, a loader is at hand, the loader gives a
  content and \<open>description.parse\<close>, called on that content with the file name and
  \<open>final\<close>, gives a value, \<open>loadConfigFile\<close> returns a new result object that wraps this
  value with the file name it was called with, which is the absolute file name when
  the caller passes an absolute one, and with an empty \<open>extends\<close> list.
\<close>

theorem loaded_result_has_provenance:
  assumes miss: "contentCache s (resolve e (cwd e) fName) = None"
    and absolute: "resolve e (cwd e) fName = fName"
    and usedLoader: "(case given of
                        Some l \<Rightarrow> Some l
                      | None \<Rightarrow> getLoaderFor e (modulePaths p)
                                  (basename e (resolve e (cwd e) fName)) None) = Some usedLoader"
    and content: "loadFile e (resolve e (cwd e) fName) (loader usedLoader) = Inr (Some content)"
    and parsed: "parse e content \<lparr>keyName = [], contextFileName = fName, final = True\<rparr>
                   = Inr (Some v)"
  shows "snd (loadConfigFile e p s fName given) =
           Inr (Some \<lparr>ref = allocated s, parsed = v,
                      fileName = resolve e (cwd e) fName, extends = []\<rparr>)
         \<and> allocated (fst (loadConfigFile e p s fName given)) = Suc (allocated s)"
proof -
  from usedLoader have sel: "(case given of
      Some l \<Rightarrow> Some l
    | None \<Rightarrow> getLoaderFor e (modulePaths p) (basename e fName) None) = Some usedLoader"
    by (simp add: absolute cong: option.case_cong)
  from miss content parsed have facts: "contentCache s fName = None"
    "loadFile e fName (loader usedLoader) = Inr (Some content)"
    by (simp_all add: absolute)
  show ?thesis
  proof (cases "name usedLoader")
    case None
    with facts parsed sel show ?thesis
      by (simp add: loadConfigFile_def Let_def absolute)
  next
    case (Some n)
    with facts parsed sel show ?thesis
      by (simp add: loadConfigFile_def Let_def absolute)
  qed
qed

theorem loaded_result_has_provenance_witness:
  "contentCache exState (resolve exEnv (cwd exEnv) ''/a/cfg.json'') = None
   \<and> resolve exEnv (cwd exEnv) ''/a/cfg.json'' = ''/a/cfg.json''
   \<and> getLoaderFor exEnv (modulePaths exParameters)
        (basename exEnv (resolve exEnv (cwd exEnv) ''/a/cfg.json'')) None
       = Some \<lparr>name = Some ''json'', loader = 1\<rparr>
   \<and> loadFile exEnv (resolve exEnv (cwd exEnv) ''/a/cfg.json'') 1 = Inr (Some ''{}'')
   \<and> parse exEnv ''{}'' \<lparr>keyName = [], contextFileName = ''/a/cfg.json'', final = True\<rparr>
       = Inr (Some ''{}'')
   \<and> snd (loadConfigFile exEnv exParameters exState ''/a/cfg.json'' None)
       = Inr (Some \<lparr>ref = 0, parsed = ''{}'', fileName = ''/a/cfg.json'', extends = []\<rparr>)"
proof -
  have miss: "contentCache exState (resolve exEnv (cwd exEnv) ''/a/cfg.json'') = None"
    by (simp add: exState_def)
  have absolute: "resolve exEnv (cwd exEnv) ''/a/cfg.json'' = ''/a/cfg.json''"
    by (simp add: ex_defs)
  have usedLoader: "(case None of
        Some l \<Rightarrow> Some l
      | None \<Rightarrow> getLoaderFor exEnv (modulePaths exParameters)
                  (basename exEnv (resolve exEnv (cwd exEnv) ''/a/cfg.json'')) None)
      = Some \<lparr>name = Some ''json'', loader = 1\<rparr>"
    by (simp add: ex_defs suffix_def)
  have content: "loadFile exEnv (resolve exEnv (cwd exEnv) ''/a/cfg.json'')
      (loader \<lparr>name = Some ''json'', loader = 1::nat\<rparr>) = Inr (Some ''{}'')"
    by (simp add: ex_defs)
  have parsed: "parse exEnv ''{}'' \<lparr>keyName = [], contextFileName = ''/a/cfg.json'', final = True\<rparr>
      = Inr (Some ''{}'')"
    by (simp add: exEnv_def)
  from loaded_result_has_provenance [OF miss absolute usedLoader content parsed]
    miss absolute usedLoader content parsed
  show ?thesis by (simp add: exState_def)
qed

end
